theory Spec2Isabelle
  imports Complex_Main "HOL-Library.Word" "HOL-Library.AList"
begin

section \<open>Data model\<close>

text \<open>
  The proxy moves byte buffers (\<^verbatim>\<open>bytes\<close>, \<^verbatim>\<open>bytearray\<close>) between an HTTP client and a
  peripheral. A byte is an 8-bit word.
\<close>

type_synonym byte = "8 word"
type_synonym bytes = "byte list"

text \<open>
  The exception classes that the two source files raise themselves or receive from the
  Python runtime and its libraries. \<open>BleakError\<close> is the connection failure of the
  transport; \<open>OtherException\<close> stands for any further subclass of \<^verbatim>\<open>Exception\<close>.
\<close>

datatype py_error =
    ValueError
  | TypeError
  | KeyError
  | AttributeError
  | OverflowError
  | UnicodeDecodeError
  | JSONDecodeError
  | Base64Error
  | TimeoutError
  | BleakError
  | RuntimeError
  | OtherException

section \<open>Fragmenter: \<^verbatim>\<open>chunk_bytes\<close>\<close>

text \<open>
  \<^verbatim>\<open>
  def chunk_bytes(b: bytes, n=BLE_CHUNK_SIZE):
      for i in range(0, len(b), n):
          yield b[i:i + n]
  \<close>
  \<open>chunks_from i b n\<close> is the loop from index \<open>i\<close> on, for a positive step; the slice
  \<^verbatim>\<open>b[i:i+n]\<close> is \<open>take n (drop i b)\<close>. \<^verbatim>\<open>range\<close> rejects a step of zero with
  \<^verbatim>\<open>ValueError\<close> and is empty for a negative step.
\<close>

definition BLE_CHUNK_SIZE :: int where
  "BLE_CHUNK_SIZE = 120"

function chunks_from :: "nat \<Rightarrow> bytes \<Rightarrow> nat \<Rightarrow> bytes list" where
  "chunks_from i b n =
     (if 0 < n \<and> i < length b then take n (drop i b) # chunks_from (i + n) b n else [])"
  by pat_completeness auto
termination
  by (relation "measure (\<lambda>(i, b, n). length b - i)") auto

definition chunk_bytes :: "bytes \<Rightarrow> int \<Rightarrow> py_error + bytes list" where
  "chunk_bytes b n =
     (if n = 0 then Inl ValueError
      else if n < 0 then Inr []
      else Inr (chunks_from 0 b (nat n)))"

section \<open>Python values and the library\<close>

text \<open>
  What \<^verbatim>\<open>json.loads\<close> returns. A JSON number is a Python \<^verbatim>\<open>int\<close> or \<^verbatim>\<open>float\<close>; a finite
  float is the rational it denotes, and the three non-finite values that \<^verbatim>\<open>json.loads\<close>
  accepts are kept apart. A \<^verbatim>\<open>str\<close> is a \<open>string\<close>: the model only compares strings and
  asks whether one is empty. A \<^verbatim>\<open>dict\<close> is the list of its items in insertion order, looked
  up with \<open>map_of\<close>.
\<close>

datatype pyfloat = Finite rat | PosInf | NegInf | NaN

datatype json =
    JNull
  | JBool bool
  | JInt int
  | JFloat pyfloat
  | JStr string
  | JArr "json list"
  | JObj "(string \<times> json) list"

text \<open>Truth value testing, \<^verbatim>\<open>bool(x)\<close> and \<^verbatim>\<open>if x\<close>.\<close>

fun py_bool :: "json \<Rightarrow> bool" where
  "py_bool JNull = False"
| "py_bool (JBool b) = b"
| "py_bool (JInt i) = (i \<noteq> 0)"
| "py_bool (JFloat f) = (f \<noteq> Finite 0)"
| "py_bool (JStr s) = (s \<noteq> [])"
| "py_bool (JArr xs) = (xs \<noteq> [])"
| "py_bool (JObj kvs) = (kvs \<noteq> [])"

text \<open>
  The functions of the Python runtime and of the \<^verbatim>\<open>json\<close>, \<^verbatim>\<open>base64\<close> and \<^verbatim>\<open>aiohttp\<close>
  libraries that the source calls are parameters of the model: every theorem holds for
  whatever they return.
  \<^item> \<open>decode_utf8\<close>: \<^verbatim>\<open>data.decode("utf-8")\<close>;
  \<^item> \<open>json_loads\<close>: \<^verbatim>\<open>json.loads(text)\<close>;
  \<^item> \<open>dumps_utf8\<close>: \<^verbatim>\<open>json.dumps(cmd).encode("utf-8")\<close>;
  \<^item> \<open>b64decode\<close>: \<^verbatim>\<open>base64.b64decode(s)\<close> on a \<^verbatim>\<open>str\<close>;
  \<^item> \<open>b64encode\<close>: \<^verbatim>\<open>base64.b64encode(body).decode("ascii")\<close>;
  \<^item> \<open>int_of_str\<close>: \<^verbatim>\<open>int(s)\<close> on a \<^verbatim>\<open>str\<close>;
  \<^item> \<open>exc_text\<close>: \<^verbatim>\<open>str(e)\<close> as the f-string formats an exception;
  \<^item> \<open>response_rejects\<close>: the exception, if any, with which
    \<^verbatim>\<open>web.Response(body=..., status=..., headers=...)\<close> refuses its arguments.
\<close>

record pylib =
  decode_utf8 :: "bytes \<Rightarrow> py_error + string"
  json_loads :: "string \<Rightarrow> py_error + json"
  dumps_utf8 :: "json \<Rightarrow> bytes"
  b64decode :: "string \<Rightarrow> py_error + bytes"
  b64encode :: "bytes \<Rightarrow> string"
  int_of_str :: "string \<Rightarrow> py_error + int"
  exc_text :: "py_error \<Rightarrow> string"
  response_rejects :: "int \<Rightarrow> json \<Rightarrow> py_error option"

text \<open>
  \<^verbatim>\<open>int(x)\<close>: a float is truncated towards zero, infinities raise \<^verbatim>\<open>OverflowError\<close>, NaN
  raises \<^verbatim>\<open>ValueError\<close>; \<^verbatim>\<open>None\<close>, lists and dicts raise \<^verbatim>\<open>TypeError\<close>.
\<close>

definition trunc :: "rat \<Rightarrow> int" where
  "trunc r = (if 0 \<le> r then \<lfloor>r\<rfloor> else \<lceil>r\<rceil>)"

fun py_int :: "pylib \<Rightarrow> json \<Rightarrow> py_error + int" where
  "py_int L JNull = Inl TypeError"
| "py_int L (JBool b) = Inr (if b then 1 else 0)"
| "py_int L (JInt i) = Inr i"
| "py_int L (JFloat (Finite r)) = Inr (trunc r)"
| "py_int L (JFloat PosInf) = Inl OverflowError"
| "py_int L (JFloat NegInf) = Inl OverflowError"
| "py_int L (JFloat NaN) = Inl ValueError"
| "py_int L (JStr s) = int_of_str L s"
| "py_int L (JArr xs) = Inl TypeError"
| "py_int L (JObj kvs) = Inl TypeError"

text \<open>
  A value used as a dictionary key. Python compares keys with \<^verbatim>\<open>==\<close> after hashing, and
  \<^verbatim>\<open>True == 1 == 1.0\<close>: booleans, ints and finite floats are one key when they denote the
  same number. Lists and dicts are unhashable (\<^verbatim>\<open>TypeError\<close>).
\<close>

datatype pykey = KNone | KNum rat | KPosInf | KNegInf | KNaN | KStr string

fun py_key :: "json \<Rightarrow> py_error + pykey" where
  "py_key JNull = Inr KNone"
| "py_key (JBool b) = Inr (KNum (if b then 1 else 0))"
| "py_key (JInt i) = Inr (KNum (of_int i))"
| "py_key (JFloat (Finite r)) = Inr (KNum r)"
| "py_key (JFloat PosInf) = Inr KPosInf"
| "py_key (JFloat NegInf) = Inr KNegInf"
| "py_key (JFloat NaN) = Inr KNaN"
| "py_key (JStr s) = Inr (KStr s)"
| "py_key (JArr xs) = Inl TypeError"
| "py_key (JObj kvs) = Inl TypeError"

text \<open>
  \<^verbatim>\<open>msg.get(k, d)\<close> exists on a dict only (\<^verbatim>\<open>AttributeError\<close> otherwise); \<^verbatim>\<open>msg[k]\<close> with a
  string \<open>k\<close> raises \<^verbatim>\<open>KeyError\<close> on a dict without \<open>k\<close> and \<^verbatim>\<open>TypeError\<close> on anything
  that is not a dict.
\<close>

definition py_get :: "json \<Rightarrow> string \<Rightarrow> json \<Rightarrow> py_error + json" where
  "py_get msg k d =
     (case msg of
        JObj kvs \<Rightarrow> Inr (case map_of kvs k of None \<Rightarrow> d | Some v \<Rightarrow> v)
      | _ \<Rightarrow> Inl AttributeError)"

definition py_getitem :: "json \<Rightarrow> string \<Rightarrow> py_error + json" where
  "py_getitem msg k =
     (case msg of
        JObj kvs \<Rightarrow> (case map_of kvs k of None \<Rightarrow> Inl KeyError | Some v \<Rightarrow> Inr v)
      | _ \<Rightarrow> Inl TypeError)"

text \<open>
  \<^verbatim>\<open>base64.b64decode(x) if x else b""\<close>: a falsy value gives the empty payload; a truthy
  value that is not a \<^verbatim>\<open>str\<close> is refused with \<^verbatim>\<open>TypeError\<close>.
\<close>

definition py_b64decode :: "pylib \<Rightarrow> json \<Rightarrow> py_error + bytes" where
  "py_b64decode L x =
     (if py_bool x
      then (case x of JStr s \<Rightarrow> b64decode L s | _ \<Rightarrow> Inl TypeError)
      else Inr [])"

text \<open>\<^verbatim>\<open>str(i)\<close> for an \<^verbatim>\<open>int\<close>, as the f-string of the request id formats it.\<close>

function dec_digits :: "int \<Rightarrow> string" where
  "dec_digits n =
     (if n < 10 then [char_of (48 + n)]
      else dec_digits (n div 10) @ [char_of (48 + n mod 10)])"
  by pat_completeness auto
termination
  by (relation "measure nat") auto

definition py_str_int :: "int \<Rightarrow> string" where
  "py_str_int i = (if i < 0 then CHR ''-'' # dec_digits (- i) else dec_digits i)"

section \<open>Reassembly: the notification handler\<close>

text \<open>
  The two local variables of \<^verbatim>\<open>send_command_and_get_response\<close> that its notification
  handler closes over: \<^verbatim>\<open>fragments = {}\<close>, a dict from request id to a dict from sequence
  number to payload, and \<^verbatim>\<open>finished = asyncio.Event()\<close>.
\<close>

type_synonym parts = "(int \<times> bytes) list"
type_synonym frag_table = "(pykey \<times> parts) list"

record cycle_state =
  fragments :: frag_table
  finished :: bool

definition new_cycle :: cycle_state where
  "new_cycle = \<lparr>fragments = [], finished = False\<rparr>"

text \<open>
  \<^verbatim>\<open>fragments.setdefault(rid, {})[seq] = payload\<close>: an id seen for the first time gets an
  empty inner dict at the end of the outer one; the inner dict is then updated in place, a
  known \<open>seq\<close> keeping its position and a new one going last.
\<close>

definition store_fragment :: "pykey \<Rightarrow> int \<Rightarrow> bytes \<Rightarrow> frag_table \<Rightarrow> frag_table" where
  "store_fragment rid seq payload fr =
     AList.map_entry rid (AList.update seq payload)
       (case map_of fr rid of None \<Rightarrow> fr @ [(rid, [])] | Some ps \<Rightarrow> fr)"

text \<open>
  The body of the handler's \<^verbatim>\<open>try\<close> from \<^verbatim>\<open>json.loads\<close> on, in the order of the source:
  \<^verbatim>\<open>
  msg = json.loads(...)
  rid = msg.get("id")
  seq = int(msg.get("seq", 0))
  payload_b64 = msg.get("payload_b64", "")
  final = bool(msg.get("final", False))
  payload = base64.b64decode(payload_b64) if payload_b64 else b""
  fragments.setdefault(rid, {})[seq] = payload
  if final:
      finished.set()
  \<close>
  \<open>fragment_fields\<close> is the part that reads the message; hashing \<open>rid\<close> is the first
  thing \<^verbatim>\<open>setdefault\<close> does, and nothing is stored when it fails.
\<close>

definition fragment_fields :: "pylib \<Rightarrow> json \<Rightarrow> py_error + (json \<times> int \<times> bytes \<times> bool)" where
  "fragment_fields L msg =
     (case py_get msg ''id'' JNull of Inl e \<Rightarrow> Inl e | Inr rid \<Rightarrow>
      case py_get msg ''seq'' (JInt 0) of Inl e \<Rightarrow> Inl e | Inr seqv \<Rightarrow>
      case py_int L seqv of Inl e \<Rightarrow> Inl e | Inr seq \<Rightarrow>
      case py_get msg ''payload_b64'' (JStr []) of Inl e \<Rightarrow> Inl e | Inr payload_b64 \<Rightarrow>
      case py_get msg ''final'' (JBool False) of Inl e \<Rightarrow> Inl e | Inr finalv \<Rightarrow>
      case py_b64decode L payload_b64 of Inl e \<Rightarrow> Inl e | Inr payload \<Rightarrow>
        Inr (rid, seq, payload, py_bool finalv))"

definition ingest_text :: "pylib \<Rightarrow> string \<Rightarrow> cycle_state \<Rightarrow> py_error + cycle_state" where
  "ingest_text L text s =
     (case json_loads L text of Inl e \<Rightarrow> Inl e | Inr msg \<Rightarrow>
      case fragment_fields L msg of Inl e \<Rightarrow> Inl e | Inr (rid, seq, payload, final) \<Rightarrow>
      case py_key rid of Inl e \<Rightarrow> Inl e | Inr k \<Rightarrow>
        Inr (s\<lparr>fragments := store_fragment k seq payload (fragments s),
               finished := (if final then True else finished s)\<rparr>))"

definition handler_body :: "pylib \<Rightarrow> bytes \<Rightarrow> cycle_state \<Rightarrow> py_error + cycle_state" where
  "handler_body L data s =
     (case decode_utf8 L data of Inl e \<Rightarrow> Inl e | Inr text \<Rightarrow> ingest_text L text s)"

text \<open>
  \<^verbatim>\<open>notif_handler\<close> of \<^verbatim>\<open>main.py\<close>: the whole body is inside \<^verbatim>\<open>try ... except Exception\<close>,
  whose handler prints and returns. Standard output is not part of the model.
\<close>

definition notif_handler :: "pylib \<Rightarrow> bytes \<Rightarrow> cycle_state \<Rightarrow> cycle_state" where
  "notif_handler L data s = (case handler_body L data s of Inl e \<Rightarrow> s | Inr s' \<Rightarrow> s')"

text \<open>
  \<^verbatim>\<open>notif_handler\<close> of \<^verbatim>\<open>macedition.py\<close>: the decoding has a \<^verbatim>\<open>try\<close> of its own that
  returns on \<^verbatim>\<open>UnicodeDecodeError\<close>; any other exception reaches the outer handler.
\<close>

definition notif_handler_mac :: "pylib \<Rightarrow> bytes \<Rightarrow> cycle_state \<Rightarrow> cycle_state" where
  "notif_handler_mac L data s =
     (case decode_utf8 L data of
        Inl e \<Rightarrow> (if e = UnicodeDecodeError then s else s)
      | Inr decoded \<Rightarrow> (case ingest_text L decoded s of Inl e \<Rightarrow> s | Inr s' \<Rightarrow> s'))"

text \<open>
  The fragment a notification carries, as the handler reads it: its id as a dictionary
  key, its sequence number, its payload and its \<^verbatim>\<open>final\<close> flag. An error is the exception
  that the handler's \<^verbatim>\<open>try\<close> body raises on this notification.
\<close>

definition fragment_of :: "pylib \<Rightarrow> bytes \<Rightarrow> py_error + (pykey \<times> int \<times> bytes \<times> bool)" where
  "fragment_of L data =
     (case decode_utf8 L data of Inl e \<Rightarrow> Inl e | Inr text \<Rightarrow>
      case json_loads L text of Inl e \<Rightarrow> Inl e | Inr msg \<Rightarrow>
      case fragment_fields L msg of Inl e \<Rightarrow> Inl e | Inr (rid, seq, payload, final) \<Rightarrow>
      case py_key rid of Inl e \<Rightarrow> Inl e | Inr k \<Rightarrow> Inr (k, seq, payload, final))"

text \<open>The payload stored at \<^verbatim>\<open>fragments[rid][seq]\<close>, if there is one.\<close>

definition slot :: "frag_table \<Rightarrow> pykey \<Rightarrow> int \<Rightarrow> bytes option" where
  "slot fr rid seq = (case map_of fr rid of None \<Rightarrow> None | Some ps \<Rightarrow> map_of ps seq)"

text \<open>Delivering a list of notifications to the handler, first to last.\<close>

definition ingest_all :: "pylib \<Rightarrow> bytes list \<Rightarrow> cycle_state \<Rightarrow> cycle_state" where
  "ingest_all L ds s = foldl (\<lambda>s d. notif_handler L d s) s ds"

section \<open>Reassembly: building the response\<close>

text \<open>
  \<^verbatim>\<open>
  req_json = json.loads(command_bytes.decode("utf-8"))
  rid = req_json["id"]
  parts = fragments.get(rid, {})
  assembled = b"".join(parts[i] for i in sorted(parts.keys()))
  return assembled
  \<close>
  \<open>join_parts\<close> is the generator handed to \<^verbatim>\<open>join\<close>, with the \<^verbatim>\<open>KeyError\<close> of \<^verbatim>\<open>parts[i]\<close>
  written out; \<open>assemble\<close> is the last two lines before the \<^verbatim>\<open>return\<close>.
\<close>

fun join_parts :: "parts \<Rightarrow> int list \<Rightarrow> py_error + bytes" where
  "join_parts ps [] = Inr []"
| "join_parts ps (i # is) =
     (case map_of ps i of
        None \<Rightarrow> Inl KeyError
      | Some p \<Rightarrow> (case join_parts ps is of Inl e \<Rightarrow> Inl e | Inr rest \<Rightarrow> Inr (p @ rest)))"

definition assemble :: "pykey \<Rightarrow> frag_table \<Rightarrow> py_error + bytes" where
  "assemble rid fr =
     (let ps = (case map_of fr rid of None \<Rightarrow> [] | Some ps \<Rightarrow> ps)
      in join_parts ps (sort (map fst ps)))"

definition command_id :: "pylib \<Rightarrow> bytes \<Rightarrow> py_error + pykey" where
  "command_id L command_bytes =
     (case decode_utf8 L command_bytes of Inl e \<Rightarrow> Inl e | Inr text \<Rightarrow>
      case json_loads L text of Inl e \<Rightarrow> Inl e | Inr req_json \<Rightarrow>
      case py_getitem req_json ''id'' of Inl e \<Rightarrow> Inl e | Inr rid \<Rightarrow> py_key rid)"

definition assemble_response :: "pylib \<Rightarrow> bytes \<Rightarrow> frag_table \<Rightarrow> py_error + bytes" where
  "assemble_response L command_bytes fr =
     (case command_id L command_bytes of Inl e \<Rightarrow> Inl e | Inr rid \<Rightarrow> assemble rid fr)"

section \<open>One request-response cycle\<close>

text \<open>
  What the link does during one call, as far as the call can observe it:
  \<^item> \<open>connect_result\<close>: the exception of the connection attempt, if it fails
    (\<^verbatim>\<open>safe_connect\<close> raises \<^verbatim>\<open>BleakError\<close> after its retries; \<^verbatim>\<open>async with BleakClient\<close>
    raises on entry);
  \<^item> \<open>start_notify_result\<close>, \<open>write_result k chunk\<close>: the exception of
    \<^verbatim>\<open>start_notify\<close> and of the \<open>k\<close>-th \<^verbatim>\<open>write_gatt_char\<close>, if any;
  \<^item> \<open>early_notifications\<close>: the notifications handled between \<^verbatim>\<open>start_notify\<close> and the
    start of the wait;
  \<^item> \<open>wait_events\<close>: what happens while \<^verbatim>\<open>asyncio.wait_for\<close> waits, in order: a
    notification is handled, or one unit of time passes;
  \<^item> \<open>cleanup_result\<close>: the exception of the disconnection on the way out, if any.
\<close>

datatype event = Notify bytes | Tick

record link_env =
  connect_result :: "py_error option"
  start_notify_result :: "py_error option"
  write_result :: "nat \<Rightarrow> bytes \<Rightarrow> py_error option"
  early_notifications :: "bytes list"
  wait_events :: "event list"
  cleanup_result :: "py_error option"

text \<open>
  \<^verbatim>\<open>REQUEST_TIMEOUT = 90.0\<close> seconds; the clock of the model counts whole seconds, one per
  \<open>Tick\<close>.
\<close>

definition REQUEST_TIMEOUT :: nat where
  "REQUEST_TIMEOUT = 90"

text \<open>
  The live activations of \<^verbatim>\<open>send_command_and_get_response\<close>, each with its own local
  variables. A call allocates its frame on entry; its handler closure refers to that
  frame only; the frame goes when the call returns or raises.
\<close>

type_synonym frames = "(nat \<times> cycle_state) list"

definition fresh_frame :: "frames \<Rightarrow> nat" where
  "fresh_frame h = Suc (fold max (map fst h) 0)"

definition deliver :: "pylib \<Rightarrow> nat \<Rightarrow> bytes \<Rightarrow> frames \<Rightarrow> frames" where
  "deliver L c data h = AList.map_entry c (notif_handler L data) h"

definition deliver_all :: "pylib \<Rightarrow> nat \<Rightarrow> bytes list \<Rightarrow> frames \<Rightarrow> frames" where
  "deliver_all L c ds h = foldl (\<lambda>h d. deliver L c d h) h ds"

definition frame_finished :: "frames \<Rightarrow> nat \<Rightarrow> bool" where
  "frame_finished h c = (case map_of h c of None \<Rightarrow> False | Some s \<Rightarrow> finished s)"

definition frame_fragments :: "frames \<Rightarrow> nat \<Rightarrow> frag_table" where
  "frame_fragments h c = (case map_of h c of None \<Rightarrow> [] | Some s \<Rightarrow> fragments s)"

text \<open>
  \<^verbatim>\<open>await asyncio.wait_for(finished.wait(), timeout=timeout)\<close>: the wait ends as soon as
  the event is set, and with \<^verbatim>\<open>asyncio.TimeoutError\<close> once \<open>timeout\<close> units of time have
  passed without it. While the list of events gives neither, the call is still waiting.
\<close>

datatype wait_result = Completed | TimedOut | Waiting

fun wait_for :: "pylib \<Rightarrow> nat \<Rightarrow> nat \<Rightarrow> event list \<Rightarrow> frames \<Rightarrow> wait_result \<times> frames" where
  "wait_for L c remaining [] h =
     (if frame_finished h c then (Completed, h)
      else if remaining = 0 then (TimedOut, h)
      else (Waiting, h))"
| "wait_for L c remaining (ev # evs) h =
     (if frame_finished h c then (Completed, h)
      else if remaining = 0 then (TimedOut, h)
      else (case ev of
              Tick \<Rightarrow> wait_for L c (remaining - 1) evs h
            | Notify data \<Rightarrow> wait_for L c remaining evs (deliver L c data h)))"

text \<open>
  \<^verbatim>\<open>for chunk in chunk_bytes(command_bytes, BLE_CHUNK_SIZE): await client.write_gatt_char(...)\<close>:
  the first write that raises ends the loop.
\<close>

fun write_chunks :: "(nat \<Rightarrow> bytes \<Rightarrow> py_error option) \<Rightarrow> nat \<Rightarrow> bytes list \<Rightarrow> py_error option" where
  "write_chunks w k [] = None"
| "write_chunks w k (chunk # chunks) =
     (case w k chunk of Some e \<Rightarrow> Some e | None \<Rightarrow> write_chunks w (Suc k) chunks)"

text \<open>
  The way out of the call once the client is connected. \<^verbatim>\<open>main.py\<close> stops the
  notifications and disconnects in a \<^verbatim>\<open>finally\<close> that swallows every exception;
  \<^verbatim>\<open>macedition.py\<close> leaves an \<^verbatim>\<open>async with\<close> block, whose disconnection can raise in place
  of the result.
\<close>

datatype edition = MainEdition | MacEdition

definition leave_session :: "edition \<Rightarrow> link_env \<Rightarrow> py_error + bytes \<Rightarrow> py_error + bytes" where
  "leave_session ed env r =
     (case ed of
        MainEdition \<Rightarrow> r
      | MacEdition \<Rightarrow> (case cleanup_result env of None \<Rightarrow> r | Some e \<Rightarrow> Inl e))"

text \<open>
  \<^verbatim>\<open>send_command_and_get_response\<close>. The result is \<open>None\<close> while the call is still waiting,
  \<open>Some (Inl e)\<close> when it raises \<open>e\<close> and \<open>Some (Inr assembled)\<close> when it returns.
\<close>

definition send_command_and_get_response ::
  "pylib \<Rightarrow> edition \<Rightarrow> link_env \<Rightarrow> bytes \<Rightarrow> nat \<Rightarrow> frames \<Rightarrow> (py_error + bytes) option \<times> frames" where
  "send_command_and_get_response L ed env command_bytes timeout h =
     (let c = fresh_frame h;
          h0 = h @ [(c, new_cycle)]
      in case connect_result env of
           Some e \<Rightarrow> (Some (Inl e), AList.delete c h0)
         | None \<Rightarrow>
      (case start_notify_result env of
           Some e \<Rightarrow> (Some (leave_session ed env (Inl e)), AList.delete c h0)
         | None \<Rightarrow>
      (let h1 = deliver_all L c (early_notifications env) h0
       in case chunk_bytes command_bytes BLE_CHUNK_SIZE of
            Inl e \<Rightarrow> (Some (leave_session ed env (Inl e)), AList.delete c h1)
          | Inr chunks \<Rightarrow>
       (case write_chunks (write_result env) 0 chunks of
            Some e \<Rightarrow> (Some (leave_session ed env (Inl e)), AList.delete c h1)
          | None \<Rightarrow>
       (case wait_for L c timeout (wait_events env) h1 of
            (Waiting, h2) \<Rightarrow> (None, h2)
          | (TimedOut, h2) \<Rightarrow>
              (Some (leave_session ed env (Inl TimeoutError)), AList.delete c h2)
          | (Completed, h2) \<Rightarrow>
              (Some (leave_session ed env
                       (assemble_response L command_bytes (frame_fragments h2 c))),
               AList.delete c h2))))))"

section \<open>Notions used in the statements\<close>

text \<open>Every inner dictionary of the table lists each sequence number once.\<close>

definition table_ok :: "frag_table \<Rightarrow> bool" where
  "table_ok fr = (\<forall>k ps. map_of fr k = Some ps \<longrightarrow> distinct (map fst ps))"

text \<open>The notification is accepted by the handler and carries the id \<open>rid\<close>.\<close>

definition carries_id :: "pylib \<Rightarrow> pykey \<Rightarrow> bytes \<Rightarrow> bool" where
  "carries_id L rid data =
     (case fragment_of L data of Inl e \<Rightarrow> False | Inr (k, seq, p, f) \<Rightarrow> k = rid)"

text \<open>The notification is accepted by the handler and its \<^verbatim>\<open>final\<close> flag is true.\<close>

definition is_final :: "pylib \<Rightarrow> bytes \<Rightarrow> bool" where
  "is_final L data =
     (case fragment_of L data of Inl e \<Rightarrow> False | Inr (k, seq, p, f) \<Rightarrow> f)"

text \<open>The notifications among a list of events, and the number of ticks.\<close>

fun notifications :: "event list \<Rightarrow> bytes list" where
  "notifications [] = []"
| "notifications (Notify d # evs) = d # notifications evs"
| "notifications (Tick # evs) = notifications evs"

fun ticks :: "event list \<Rightarrow> nat" where
  "ticks [] = 0"
| "ticks (Notify d # evs) = ticks evs"
| "ticks (Tick # evs) = Suc (ticks evs)"

text \<open>
  The wait as the frame of the waiting call sees it: the notifications go to its own
  handler and only its own \<^verbatim>\<open>finished\<close> event is tested.
\<close>

fun wait_local :: "pylib \<Rightarrow> nat \<Rightarrow> event list \<Rightarrow> cycle_state \<Rightarrow> wait_result \<times> cycle_state" where
  "wait_local L remaining [] s =
     (if finished s then (Completed, s)
      else if remaining = 0 then (TimedOut, s)
      else (Waiting, s))"
| "wait_local L remaining (ev # evs) s =
     (if finished s then (Completed, s)
      else if remaining = 0 then (TimedOut, s)
      else (case ev of
              Tick \<Rightarrow> wait_local L (remaining - 1) evs s
            | Notify data \<Rightarrow> wait_local L remaining evs (notif_handler L data s)))"

section \<open>HTTP adapter: \<^verbatim>\<open>handle_request\<close>\<close>

text \<open>
  The request as the handler reads it (\<^verbatim>\<open>request.method\<close>, \<^verbatim>\<open>str(request.url)\<close>,
  \<^verbatim>\<open>dict(request.headers)\<close>, \<^verbatim>\<open>await request.read()\<close>) and the arguments it gives
  \<^verbatim>\<open>web.Response\<close>: \<^verbatim>\<open>status\<close>, \<^verbatim>\<open>headers\<close> when passed, and \<^verbatim>\<open>body\<close> or \<^verbatim>\<open>text\<close>.
\<close>

record http_request =
  req_method :: string
  req_url :: string
  req_headers :: "(string \<times> string) list"
  req_body :: bytes

datatype content = RawBody bytes | TextBody string

record http_response =
  status :: int
  headers :: "json option"
  content :: content

text \<open>
  The module-level variables \<^verbatim>\<open>connected_address\<close>, \<^verbatim>\<open>CMD_CHAR\<close> and \<^verbatim>\<open>RESP_CHAR\<close>, and the
  live activations of \<^verbatim>\<open>send_command_and_get_response\<close>.
\<close>

record proxy_state =
  connected_address :: "string option"
  CMD_CHAR :: "string option"
  RESP_CHAR :: "string option"
  live :: frames

text \<open>
  What device selection does when it runs: \<^verbatim>\<open>select_device()\<close> returns an address or
  \<^verbatim>\<open>None\<close>, or raises; \<^verbatim>\<open>detect_characteristics(address)\<close> returns the two characteristics
  or raises.
\<close>

record device_env =
  select_result :: "py_error + string option"
  detect_result :: "py_error + (string option \<times> string option)"

text \<open>
  \<^verbatim>\<open>
  if not connected_address:
      connected_address = await select_device()
      CMD_CHAR, RESP_CHAR = await detect_characteristics(connected_address)
  \<close>
  These lines are outside every \<^verbatim>\<open>try\<close>: an exception here leaves the handler.
\<close>

definition ensure_device :: "device_env \<Rightarrow> proxy_state \<Rightarrow> py_error option \<times> proxy_state" where
  "ensure_device denv st =
     (if connected_address st = None \<or> connected_address st = Some []
      then (case select_result denv of
              Inl e \<Rightarrow> (Some e, st)
            | Inr addr \<Rightarrow>
                (let st1 = st\<lparr>connected_address := addr\<rparr>
                 in case detect_result denv of
                      Inl e \<Rightarrow> (Some e, st1)
                    | Inr (c, r) \<Rightarrow> (None, st1\<lparr>CMD_CHAR := c, RESP_CHAR := r\<rparr>)))
      else (None, st))"

text \<open>
  \<^verbatim>\<open>
  req_id = f"req-{int(time.time()*1000)}"
  cmd = {"id": req_id, "method": request.method, "url": str(request.url),
         "headers": dict(request.headers)}
  if body:
      cmd["body_b64"] = base64.b64encode(body).decode("ascii")
  cmd_bytes = json.dumps(cmd).encode("utf-8")
  \<close>
  \<open>now_ms\<close> is \<^verbatim>\<open>int(time.time()*1000)\<close>.
\<close>

definition build_command :: "pylib \<Rightarrow> int \<Rightarrow> http_request \<Rightarrow> json" where
  "build_command L now_ms request =
     JObj ([(''id'', JStr (''req-'' @ py_str_int now_ms)),
            (''method'', JStr (req_method request)),
            (''url'', JStr (req_url request)),
            (''headers'', JObj (map (\<lambda>(k, v). (k, JStr v)) (req_headers request)))]
           @ (if req_body request \<noteq> []
              then [(''body_b64'', JStr (b64encode L (req_body request)))] else []))"

text \<open>
  The second \<^verbatim>\<open>try\<close> of the handler:
  \<^verbatim>\<open>
  try:
      msg = json.loads(resp_bytes.decode("utf-8"))
      status = int(msg.get("status", 200))
      headers = msg.get("headers", {})
      body_b64 = msg.get("body_b64", "")
      body = base64.b64decode(body_b64) if body_b64 else b""
      return web.Response(body=body, status=status, headers=headers)
  except Exception:
      return web.Response(body=resp_bytes, status=200)
  \<close>
\<close>

definition decode_response :: "pylib \<Rightarrow> bytes \<Rightarrow> py_error + http_response" where
  "decode_response L resp_bytes =
     (case decode_utf8 L resp_bytes of Inl e \<Rightarrow> Inl e | Inr text \<Rightarrow>
      case json_loads L text of Inl e \<Rightarrow> Inl e | Inr msg \<Rightarrow>
      case py_get msg ''status'' (JInt 200) of Inl e \<Rightarrow> Inl e | Inr statusv \<Rightarrow>
      case py_int L statusv of Inl e \<Rightarrow> Inl e | Inr st \<Rightarrow>
      case py_get msg ''headers'' (JObj []) of Inl e \<Rightarrow> Inl e | Inr hdrs \<Rightarrow>
      case py_get msg ''body_b64'' (JStr []) of Inl e \<Rightarrow> Inl e | Inr body_b64 \<Rightarrow>
      case py_b64decode L body_b64 of Inl e \<Rightarrow> Inl e | Inr body \<Rightarrow>
      case response_rejects L st hdrs of Some e \<Rightarrow> Inl e | None \<Rightarrow>
        Inr \<lparr>status = st, headers = Some hdrs, content = RawBody body\<rparr>)"

definition build_response :: "pylib \<Rightarrow> bytes \<Rightarrow> http_response" where
  "build_response L resp_bytes =
     (case decode_response L resp_bytes of
        Inl e \<Rightarrow> \<lparr>status = 200, headers = None, content = RawBody resp_bytes\<rparr>
      | Inr r \<Rightarrow> r)"

text \<open>
  \<^verbatim>\<open>
  try:
      resp_bytes = await send_command_and_get_response(connected_address, CMD_CHAR, RESP_CHAR, cmd_bytes)
  except Exception as e:
      return web.Response(text=f"Error communicating with device: {e}", status=504)
  \<close>
\<close>

definition error_response :: "pylib \<Rightarrow> py_error \<Rightarrow> http_response" where
  "error_response L e =
     \<lparr>status = 504, headers = None,
      content = TextBody (''Error communicating with device: '' @ exc_text L e)\<rparr>"

text \<open>
  \<^verbatim>\<open>handle_request\<close>. The result is \<open>None\<close> while the cycle is still waiting, \<open>Some (Inl e)\<close>
  when the exception \<open>e\<close> leaves the handler, and \<open>Some (Inr r)\<close> when the handler returns
  the response \<open>r\<close>.
\<close>

definition handle_request ::
  "pylib \<Rightarrow> edition \<Rightarrow> device_env \<Rightarrow> link_env \<Rightarrow> int \<Rightarrow> http_request \<Rightarrow> proxy_state
     \<Rightarrow> (py_error + http_response) option \<times> proxy_state" where
  "handle_request L ed denv env now_ms request st =
     (let cmd_bytes = dumps_utf8 L (build_command L now_ms request)
      in case ensure_device denv st of
           (Some e, st1) \<Rightarrow> (Some (Inl e), st1)
         | (None, st1) \<Rightarrow>
      (case send_command_and_get_response L ed env cmd_bytes REQUEST_TIMEOUT (live st1) of
           (None, h) \<Rightarrow> (None, st1\<lparr>live := h\<rparr>)
         | (Some (Inl e), h) \<Rightarrow> (Some (Inr (error_response L e)), st1\<lparr>live := h\<rparr>)
         | (Some (Inr resp_bytes), h) \<Rightarrow>
             (Some (Inr (build_response L resp_bytes)), st1\<lparr>live := h\<rparr>)))"

section \<open>Concrete inputs\<close>

text \<open>
  The examples below run the model on concrete buffers. \<open>sample_lib\<close> tabulates what
  CPython's \<^verbatim>\<open>bytes.decode\<close>, \<^verbatim>\<open>json.loads\<close>, \<^verbatim>\<open>json.dumps\<close>, \<^verbatim>\<open>base64.b64decode\<close> and
  \<^verbatim>\<open>int\<close> return on the buffers and strings of these examples: ASCII buffers decode to
  their text, a buffer with a byte of 128 or more is used only where it is not UTF-8, and
  a text outside the table is none that an example parses.
\<close>

definition ascii :: "string \<Rightarrow> bytes" where
  "ascii t = map of_char t"

definition sample_json :: "(string \<times> (py_error + json)) list" where
  \<open>sample_json =
    [(''{"id": "X", "seq": 0, "payload_b64": "QQ==", "final": false}'',
        Inr (JObj [(''id'', JStr ''X''), (''seq'', JInt 0),
                   (''payload_b64'', JStr ''QQ==''), (''final'', JBool False)])),
     (''{"id": "X", "seq": 1, "payload_b64": "Qg==", "final": false}'',
        Inr (JObj [(''id'', JStr ''X''), (''seq'', JInt 1),
                   (''payload_b64'', JStr ''Qg==''), (''final'', JBool False)])),
     (''{"id": "X", "seq": 2, "payload_b64": "Qw==", "final": true}'',
        Inr (JObj [(''id'', JStr ''X''), (''seq'', JInt 2),
                   (''payload_b64'', JStr ''Qw==''), (''final'', JBool True)])),
     (''{"id": "X", "seq": 0, "payload_b64": "Qg==", "final": false}'',
        Inr (JObj [(''id'', JStr ''X''), (''seq'', JInt 0),
                   (''payload_b64'', JStr ''Qg==''), (''final'', JBool False)])),
     (''{"id": "Y", "seq": 0, "payload_b64": "Qg==", "final": false}'',
        Inr (JObj [(''id'', JStr ''Y''), (''seq'', JInt 0),
                   (''payload_b64'', JStr ''Qg==''), (''final'', JBool False)])),
     (''{"id": "X", "seq": "abc"}'',
        Inr (JObj [(''id'', JStr ''X''), (''seq'', JStr ''abc'')])),
     (''{"final": true}'', Inr (JObj [(''final'', JBool True)])),
     (''{}'', Inr (JObj [])),
     (''{"id": "X"'', Inl JSONDecodeError),
     (''{"id": "X", "method": "GET", "url": "http://127.0.0.1:8080/", "headers": {}}'',
        Inr (JObj [(''id'', JStr ''X''), (''method'', JStr ''GET''),
                   (''url'', JStr ''http://127.0.0.1:8080/''), (''headers'', JObj [])])),
     (''{"id": "req-1700000000000", "method": "GET", "url": "http://127.0.0.1:8080/", "headers": {}}'',
        Inr (JObj [(''id'', JStr ''req-1700000000000''), (''method'', JStr ''GET''),
                   (''url'', JStr ''http://127.0.0.1:8080/''), (''headers'', JObj [])])),
     (''{"id": "req-1700000000000", "seq": 0, "payload_b64": "/w==", "final": true}'',
        Inr (JObj [(''id'', JStr ''req-1700000000000''), (''seq'', JInt 0),
                   (''payload_b64'', JStr ''/w==''), (''final'', JBool True)]))]\<close>

definition sample_base64 :: "(string \<times> bytes) list" where
  "sample_base64 = [(''QQ=='', [0x41]), (''Qg=='', [0x42]), (''Qw=='', [0x43]), (''/w=='', [0xFF])]"

definition sample_lib :: pylib where
  "sample_lib =
     \<lparr>decode_utf8 = (\<lambda>b. if list_all (\<lambda>x. x < 0x80) b
                          then Inr (map (\<lambda>x. char_of (unat x)) b)
                          else Inl UnicodeDecodeError),
      json_loads = (\<lambda>t. case map_of sample_json t of Some r \<Rightarrow> r | None \<Rightarrow> Inl JSONDecodeError),
      dumps_utf8 = (\<lambda>j. case find (\<lambda>(t, v). v = Inr j) sample_json of
                            Some (t, v) \<Rightarrow> ascii t | None \<Rightarrow> []),
      b64decode = (\<lambda>s. case map_of sample_base64 s of Some b \<Rightarrow> Inr b | None \<Rightarrow> Inl Base64Error),
      b64encode = (\<lambda>b. []),
      int_of_str = (\<lambda>s. Inl ValueError),
      exc_text = (\<lambda>e. if e = TimeoutError then ''Timed out waiting for response'' else []),
      response_rejects = (\<lambda>st hdrs. None)\<rparr>"

text \<open>
  A response \<^verbatim>\<open>"ABC"\<close> for the request id \<^verbatim>\<open>"X"\<close> in three fragments, a second fragment
  for the slot of the first, a fragment of another id, and notifications that leave
  fields out or are not well formed.
\<close>

definition frag_A :: bytes where
  \<open>frag_A = ascii ''{"id": "X", "seq": 0, "payload_b64": "QQ==", "final": false}''\<close>

definition frag_B :: bytes where
  \<open>frag_B = ascii ''{"id": "X", "seq": 1, "payload_b64": "Qg==", "final": false}''\<close>

definition frag_C :: bytes where
  \<open>frag_C = ascii ''{"id": "X", "seq": 2, "payload_b64": "Qw==", "final": true}''\<close>

definition frag_A_again :: bytes where
  \<open>frag_A_again = ascii ''{"id": "X", "seq": 0, "payload_b64": "Qg==", "final": false}''\<close>

definition frag_other_id :: bytes where
  \<open>frag_other_id = ascii ''{"id": "Y", "seq": 0, "payload_b64": "Qg==", "final": false}''\<close>

definition frag_bad_seq :: bytes where
  \<open>frag_bad_seq = ascii ''{"id": "X", "seq": "abc"}''\<close>

definition frag_only_final :: bytes where
  \<open>frag_only_final = ascii ''{"final": true}''\<close>

definition frag_empty_object :: bytes where
  \<open>frag_empty_object = ascii ''{}''\<close>

definition frag_truncated :: bytes where
  \<open>frag_truncated = ascii ''{"id": "X"''\<close>

definition frag_not_utf8 :: bytes where
  "frag_not_utf8 = [0xFF, 0xFE]"

definition frag_index :: "nat \<Rightarrow> bytes" where
  "frag_index i = (if i = 0 then frag_A else if i = 1 then frag_B else frag_C)"

definition command_X :: bytes where
  \<open>command_X =
     ascii ''{"id": "X", "method": "GET", "url": "http://127.0.0.1:8080/", "headers": {}}''\<close>

text \<open>A link on which everything succeeds and nothing has arrived yet.\<close>

definition quiet_link :: link_env where
  "quiet_link =
     \<lparr>connect_result = None, start_notify_result = None, write_result = (\<lambda>k chunk. None),
      early_notifications = [], wait_events = [], cleanup_result = None\<rparr>"

text \<open>
  A \<^verbatim>\<open>GET\<close> request without headers or body, received when the clock shows
  1700000000000 ms, and the one-fragment response whose payload is the byte \<^verbatim>\<open>0xFF\<close>.
\<close>

definition sample_request :: http_request where
  "sample_request =
     \<lparr>req_method = ''GET'', req_url = ''http://127.0.0.1:8080/'', req_headers = [], req_body = []\<rparr>"


definition connected_proxy :: proxy_state where
  "connected_proxy =
     \<lparr>connected_address = Some ''AA:BB:CC:DD:EE:FF'', CMD_CHAR = Some ''cmd'',
      RESP_CHAR = Some ''resp'', live = []\<rparr>"

definition no_devices :: device_env where
  "no_devices = \<lparr>select_result = Inr None, detect_result = Inl BleakError\<rparr>"

text \<open>
  The frames when another call is still waiting and its handler has already stored the
  fragment \<^verbatim>\<open>(id="X", seq=1, "B")\<close>.
\<close>

definition busy_frames :: frames where
  "busy_frames = [(1, \<lparr>fragments = [(KStr ''X'', [(1, [0x42])])], finished = False\<rparr>)]"

section \<open>Properties of the fragmenter\<close>

declare chunks_from.simps [simp del]

lemma chunks_from_concat:
  "0 < n \<Longrightarrow> concat (chunks_from i b n) = drop i b"
proof (induction i b n rule: chunks_from.induct)
  case (1 i b n)
  show ?case
  proof (cases "i < length b")
    case True
    have "concat (chunks_from i b n) = take n (drop i b) @ concat (chunks_from (i + n) b n)"
      using True "1.prems" by (subst chunks_from.simps) simp
    also have "\<dots> = take n (drop i b) @ drop (i + n) b"
      using "1.IH" True "1.prems" by simp
    also have "\<dots> = drop i b"
      by (metis add.commute append_take_drop_id drop_drop)
    finally show ?thesis .
  next
    case False
    then show ?thesis by (subst chunks_from.simps) simp
  qed
qed

lemma chunks_from_empty_iff:
  "0 < n \<Longrightarrow> chunks_from i b n = [] \<longleftrightarrow> length b \<le> i"
  by (subst chunks_from.simps) auto

lemma chunks_from_butlast_length:
  "0 < n \<Longrightarrow> c \<in> set (butlast (chunks_from i b n)) \<Longrightarrow> length c = n"
proof (induction i b n arbitrary: c rule: chunks_from.induct)
  case (1 i b n)
  show ?case
  proof (cases "i < length b")
    case True
    have unfold: "chunks_from i b n = take n (drop i b) # chunks_from (i + n) b n"
      using True "1.prems"(1) by (subst chunks_from.simps) simp
    show ?thesis
    proof (cases "chunks_from (i + n) b n = []")
      case True
      with unfold "1.prems"(2) show ?thesis by simp
    next
      case False
      then have more: "i + n < length b"
        using chunks_from_empty_iff [OF "1.prems"(1), of "i + n" b] by simp
      from False unfold "1.prems"(2)
      have "c = take n (drop i b) \<or> c \<in> set (butlast (chunks_from (i + n) b n))"
        by simp
      then show ?thesis
      proof
        assume "c = take n (drop i b)"
        with more show ?thesis by simp
      next
        assume "c \<in> set (butlast (chunks_from (i + n) b n))"
        with "1.IH" True "1.prems"(1) show ?thesis by simp
      qed
    qed
  next
    case False
    then have "chunks_from i b n = []" by (subst chunks_from.simps) simp
    with "1.prems"(2) show ?thesis by simp
  qed
qed

lemma chunks_from_eight_by_four:
  assumes "length b = 8"
  shows "chunks_from 0 b 4 = [take 4 b, drop 4 b]"
proof -
  have a: "chunks_from 0 b 4 = take 4 (drop 0 b) # chunks_from 4 b 4"
    using assms by (subst chunks_from.simps) simp
  have b: "chunks_from 4 b 4 = take 4 (drop 4 b) # chunks_from 8 b 4"
    using assms by (subst chunks_from.simps) simp
  have c: "chunks_from 8 b 4 = []"
    using assms by (subst chunks_from.simps) simp
  from a b c assms show ?thesis by simp
qed

text \<open>
  Claim C2. For every byte buffer \<open>b\<close> and every chunk size \<open>n > 0\<close>, \<^verbatim>\<open>chunk_bytes\<close>
  yields chunks whose concatenation is \<open>b\<close>; every chunk except possibly the last has
  length exactly \<open>n\<close>; and an 8-byte buffer split with chunk size 4 gives exactly two
  chunks of 4 bytes each.
\<close>

theorem chunk_bytes_partition:
  assumes "0 < n"
  shows "\<exists>cs. chunk_bytes b n = Inr cs
           \<and> concat cs = b
           \<and> (\<forall>c \<in> set (butlast cs). int (length c) = n)
           \<and> (length b = 8 \<and> n = 4 \<longrightarrow> length cs = 2 \<and> (\<forall>c \<in> set cs. length c = 4))"
proof -
  let ?cs = "chunks_from 0 b (nat n)"
  from assms have pos: "0 < nat n" by simp
  have eq: "chunk_bytes b n = Inr ?cs"
    using assms by (simp add: chunk_bytes_def)
  have cc: "concat ?cs = b"
    using chunks_from_concat [OF pos, of 0 b] by simp
  have bl: "\<forall>c \<in> set (butlast ?cs). int (length c) = n"
    using chunks_from_butlast_length [OF pos] assms by auto
  have ex: "length b = 8 \<and> n = 4 \<longrightarrow> length ?cs = 2 \<and> (\<forall>c \<in> set ?cs. length c = 4)"
  proof
    assume h: "length b = 8 \<and> n = 4"
    then have "nat n = 4" by simp
    with h chunks_from_eight_by_four [of b] have "?cs = [take 4 b, drop 4 b]" by simp
    with h show "length ?cs = 2 \<and> (\<forall>c \<in> set ?cs. length c = 4)" by simp
  qed
  from eq cc bl ex show ?thesis by blast
qed

theorem chunk_bytes_partition_witness:
  "(0::int) < 4
   \<and> (\<exists>cs. chunk_bytes [0x7B, 0x22, 0x61, 0x22, 0x3A, 0x20, 0x31, 0x7D] 4 = Inr cs
        \<and> concat cs = [0x7B, 0x22, 0x61, 0x22, 0x3A, 0x20, 0x31, 0x7D]
        \<and> length cs = 2 \<and> (\<forall>c \<in> set cs. length c = 4))"
  using chunk_bytes_partition [of 4 "[0x7B, 0x22, 0x61, 0x22, 0x3A, 0x20, 0x31, 0x7D]"]
  by auto

section \<open>Properties of the notification handler\<close>

lemma map_of_store_fragment:
  "map_of (store_fragment k seq p fr) =
     (map_of fr)(k \<mapsto> AList.update seq p (case map_of fr k of None \<Rightarrow> [] | Some ps \<Rightarrow> ps))"
  by (auto simp: store_fragment_def map_of_map_entry map_add_def fun_upd_def
           split: option.splits intro!: ext)

lemma slot_store_fragment:
  "slot (store_fragment k seq p fr) k' seq' =
     (if k' = k \<and> seq' = seq then Some p else slot fr k' seq')"
  by (auto simp: slot_def map_of_store_fragment update_conv' split: option.splits)

lemma notif_handler_fragment:
  "notif_handler L d s =
     (case fragment_of L d of
        Inl e \<Rightarrow> s
      | Inr (k, seq, p, f) \<Rightarrow>
          s\<lparr>fragments := store_fragment k seq p (fragments s), finished := (f \<or> finished s)\<rparr>)"
  by (simp add: notif_handler_def handler_body_def ingest_text_def fragment_of_def
           split: sum.splits prod.splits)

lemma notif_handler_mac_eq: "notif_handler_mac L d s = notif_handler L d s"
  by (simp add: notif_handler_mac_def notif_handler_def handler_body_def split: sum.splits)

lemma notif_handler_accepts:
  "fragment_of L d = Inr (k, seq, p, f) \<Longrightarrow>
     fragments (notif_handler L d s) = store_fragment k seq p (fragments s)
     \<and> finished (notif_handler L d s) = (f \<or> finished s)"
  by (simp add: notif_handler_fragment)

lemma notif_handler_drops: "fragment_of L d = Inl e \<Longrightarrow> notif_handler L d s = s"
  by (simp add: notif_handler_fragment)

text \<open>
  Claim C8. Ingesting a fragment stores its payload at \<^verbatim>\<open>fragments[id][seq]\<close>, and a second
  fragment with the same id and sequence number overwrites the first: after both, the
  slot holds the payload of the fragment ingested last.
\<close>

theorem ingest_last_write_wins:
  assumes "fragment_of L d1 = Inr (rid, seq, p1, f1)"
      and "fragment_of L d2 = Inr (rid, seq, p2, f2)"
  shows "slot (fragments (notif_handler L d1 s)) rid seq = Some p1
       \<and> slot (fragments (notif_handler L d2 (notif_handler L d1 s))) rid seq = Some p2"
  using assms by (simp add: notif_handler_accepts slot_store_fragment)

theorem ingest_last_write_wins_witness:
  "fragment_of sample_lib frag_A = Inr (KStr ''X'', 0, [0x41], False)
   \<and> fragment_of sample_lib frag_A_again = Inr (KStr ''X'', 0, [0x42], False)
   \<and> slot (fragments (notif_handler sample_lib frag_A new_cycle)) (KStr ''X'') 0 = Some [0x41]
   \<and> slot (fragments (notif_handler sample_lib frag_A_again
                (notif_handler sample_lib frag_A new_cycle))) (KStr ''X'') 0 = Some [0x42]"
proof -
  have a: "fragment_of sample_lib frag_A = Inr (KStr ''X'', 0, [0x41], False)"
    by code_simp
  have b: "fragment_of sample_lib frag_A_again = Inr (KStr ''X'', 0, [0x42], False)"
    by code_simp
  from ingest_last_write_wins [OF a b, of new_cycle] a b show ?thesis by simp
qed

section \<open>Properties of the assembly\<close>

lemma join_parts_present:
  "set ks \<subseteq> fst ` set ps \<Longrightarrow>
     \<exists>chunks. map (map_of ps) ks = map Some chunks \<and> join_parts ps ks = Inr (concat chunks)"
proof (induction ks)
  case Nil
  then show ?case by simp
next
  case (Cons k ks)
  then obtain chunks where c: "map (map_of ps) ks = map Some chunks"
      "join_parts ps ks = Inr (concat chunks)" by auto
  from Cons.prems have "k \<in> fst ` set ps" by simp
  then obtain p where p: "map_of ps k = Some p"
    by (metis domD dom_map_of_conv_image_fst)
  have "map (map_of ps) (k # ks) = map Some (p # chunks)" using c p by simp
  moreover have "join_parts ps (k # ks) = Inr (concat (p # chunks))" using c p by simp
  ultimately show ?case by blast
qed

lemma table_ok_empty: "table_ok []"
  by (simp add: table_ok_def)

lemma table_ok_store: "table_ok fr \<Longrightarrow> table_ok (store_fragment k seq p fr)"
  by (auto simp: table_ok_def map_of_store_fragment distinct_update split: option.splits if_splits)

lemma table_ok_handler: "table_ok (fragments s) \<Longrightarrow> table_ok (fragments (notif_handler L d s))"
  by (auto simp: notif_handler_fragment table_ok_store split: sum.splits)

lemma ingest_all_Cons: "ingest_all L (d # ds) s = ingest_all L ds (notif_handler L d s)"
  by (simp add: ingest_all_def)

lemma ingest_all_Nil: "ingest_all L [] s = s"
  by (simp add: ingest_all_def)

lemma table_ok_ingest_all:
  "table_ok (fragments s) \<Longrightarrow> table_ok (fragments (ingest_all L ds s))"
  by (induction ds arbitrary: s) (simp_all add: ingest_all_Cons ingest_all_Nil table_ok_handler)

lemma assemble_present:
  assumes "table_ok fr"
  shows "\<exists>ks chunks. sorted ks \<and> distinct ks \<and> set ks = {i. slot fr rid i \<noteq> None}
           \<and> map (slot fr rid) ks = map Some chunks
           \<and> assemble rid fr = Inr (concat chunks)"
proof (cases "map_of fr rid")
  case None
  then have "assemble rid fr = Inr []" by (simp add: assemble_def)
  moreover from None have "\<And>i. slot fr rid i = None" by (simp add: slot_def)
  ultimately show ?thesis by (intro exI [of _ "[]"]) simp
next
  case (Some ps)
  let ?ks = "sort (map fst ps)"
  from assms Some have d: "distinct (map fst ps)" by (auto simp: table_ok_def)
  have sl: "slot fr rid = map_of ps" using Some by (auto simp: slot_def)
  have "set ?ks \<subseteq> fst ` set ps" by simp
  from join_parts_present [OF this] obtain chunks where
    c: "map (map_of ps) ?ks = map Some chunks" "join_parts ps ?ks = Inr (concat chunks)" by blast
  have "set ?ks = {i. slot fr rid i \<noteq> None}"
    using sl by (auto simp: dom_map_of_conv_image_fst [symmetric] dom_def)
  moreover have "assemble rid fr = Inr (concat chunks)" using Some c by (simp add: assemble_def)
  ultimately show ?thesis using d c sl by (intro exI [of _ ?ks] exI [of _ chunks]) simp
qed

lemma slot_ingest_indexed:
  assumes "\<forall>i \<in> set order. fragment_of L (enc i) = Inr (rid, int i, payloads ! i, fin i)"
  shows "slot (fragments (ingest_all L (map enc order) s)) rid j =
           (if j \<in> int ` set order then Some (payloads ! nat j) else slot (fragments s) rid j)"
  using assms
proof (induction order arbitrary: s)
  case Nil
  then show ?case by (simp add: ingest_all_Nil)
next
  case (Cons i order)
  from Cons.prems have fi: "fragment_of L (enc i) = Inr (rid, int i, payloads ! i, fin i)"
    and rest: "\<forall>i \<in> set order. fragment_of L (enc i) = Inr (rid, int i, payloads ! i, fin i)"
    by simp_all
  have step: "slot (fragments (notif_handler L (enc i) s)) rid j =
                (if j = int i then Some (payloads ! i) else slot (fragments s) rid j)"
    using fi by (simp add: notif_handler_accepts slot_store_fragment)
  show ?case
    using Cons.IH [OF rest, of "notif_handler L (enc i) s"] step
    by (auto simp: ingest_all_Cons)
qed

lemma sorted_keys_upto:
  assumes "sorted ks" "distinct ks" "set ks = int ` {0..<n}"
  shows "ks = map int [0..<n]"
proof -
  have "sorted (map int [0..<n])"
    by (simp add: sorted_map strict_sorted_iff [symmetric] sorted_wrt_iff_nth_less)
  moreover have "distinct (map int [0..<n])" by (simp add: distinct_map inj_on_def)
  moreover have "set (map int [0..<n]) = set ks" using assms(3) by simp
  ultimately show ?thesis using assms(1,2) sorted_distinct_set_unique by metis
qed

text \<open>
  Claim C3. For a complete, gap-free set of fragments of one id (the fragment with
  sequence number \<open>i\<close> carries \<open>payloads ! i\<close>), ingesting the fragments in any delivery
  order and then assembling that id yields the concatenation of the payloads in ascending
  sequence order, whatever the order of arrival. Fragments \<^verbatim>\<open>(seq=1, "B")\<close>,
  \<^verbatim>\<open>(seq=0, "A")\<close>, \<^verbatim>\<open>(seq=2, final, "C")\<close> assemble to \<^verbatim>\<open>"ABC"\<close>.
\<close>

theorem reassembly_order_independent:
  assumes frs: "\<forall>i < length payloads. fragment_of L (enc i) = Inr (rid, int i, payloads ! i, fin i)"
      and ord: "set order = {0..<length payloads}"
  shows "assemble rid (fragments (ingest_all L (map enc order) new_cycle)) = Inr (concat payloads)"
proof -
  let ?fr = "fragments (ingest_all L (map enc order) new_cycle)"
  let ?n = "length payloads"
  from frs ord have each: "\<forall>i \<in> set order. fragment_of L (enc i) = Inr (rid, int i, payloads ! i, fin i)"
    by simp
  have sl: "slot ?fr rid j = (if j \<in> int ` {0..<?n} then Some (payloads ! nat j) else None)" for j
    using slot_ingest_indexed [OF each, of new_cycle j] ord
    by (simp add: new_cycle_def slot_def)
  have ok: "table_ok ?fr"
    by (rule table_ok_ingest_all) (simp add: new_cycle_def table_ok_empty)
  from assemble_present [OF ok, of rid] obtain ks chunks where
    ks: "sorted ks" "distinct ks" "set ks = {i. slot ?fr rid i \<noteq> None}"
    and ch: "map (slot ?fr rid) ks = map Some chunks"
    and asm: "assemble rid ?fr = Inr (concat chunks)" by blast
  have "set ks = int ` {0..<?n}" using ks(3) sl by auto
  with ks have keys: "ks = map int [0..<?n]" by (simp add: sorted_keys_upto)
  have "map Some chunks = map (slot ?fr rid) (map int [0..<?n])" using ch keys by simp
  also have "\<dots> = map (\<lambda>i. Some (payloads ! i)) [0..<?n]" by (simp add: sl)
  also have "\<dots> = map Some (map (\<lambda>i. payloads ! i) [0..<?n])" by simp
  also have "\<dots> = map Some payloads" by (simp only: map_nth)
  finally have "chunks = payloads" by (simp add: inj_map_eq_map)
  with asm show ?thesis by simp
qed

theorem reassembly_order_independent_witness:
  "fragment_of sample_lib (frag_index 1) = Inr (KStr ''X'', 1, [0x42], False)
   \<and> fragment_of sample_lib (frag_index 0) = Inr (KStr ''X'', 0, [0x41], False)
   \<and> fragment_of sample_lib (frag_index 2) = Inr (KStr ''X'', 2, [0x43], True)
   \<and> assemble (KStr ''X'')
         (fragments (ingest_all sample_lib (map frag_index [1, 0, 2]) new_cycle))
       = Inr [0x41, 0x42, 0x43]"
proof -
  let ?payloads = "[[0x41], [0x42], [0x43]] :: bytes list"
  have f0: "fragment_of sample_lib (frag_index 0) = Inr (KStr ''X'', 0, [0x41], False)"
    by code_simp
  have f1: "fragment_of sample_lib (frag_index 1) = Inr (KStr ''X'', 1, [0x42], False)"
    by code_simp
  have f2: "fragment_of sample_lib (frag_index 2) = Inr (KStr ''X'', 2, [0x43], True)"
    by code_simp
  have each: "\<forall>i < length ?payloads.
      fragment_of sample_lib (frag_index i) = Inr (KStr ''X'', int i, ?payloads ! i, i = 2)"
  proof (intro allI impI)
    fix i assume "i < length ?payloads"
    then have "i = 0 \<or> i = 1 \<or> i = 2" by auto
    then show "fragment_of sample_lib (frag_index i) = Inr (KStr ''X'', int i, ?payloads ! i, i = 2)"
      using f0 f1 f2 by auto
  qed
  have ord: "set [1, 0, 2 :: nat] = {0..<length ?payloads}" by auto
  from reassembly_order_independent [OF each ord] f0 f1 f2 show ?thesis by simp
qed

section \<open>Only the fragments of the request id are assembled\<close>

lemma carries_id_iff:
  "carries_id L rid d \<longleftrightarrow> (\<exists>seq p f. fragment_of L d = Inr (rid, seq, p, f))"
  by (auto simp: carries_id_def split: sum.splits)

lemma parts_after_handler:
  "map_of (fragments (notif_handler L d s)) rid =
     (if carries_id L rid d
      then (case fragment_of L d of
              Inr (k, seq, p, f) \<Rightarrow>
                Some (AList.update seq p (case map_of (fragments s) rid of None \<Rightarrow> [] | Some ps \<Rightarrow> ps))
            | Inl e \<Rightarrow> None)
      else map_of (fragments s) rid)"
  by (auto simp: notif_handler_fragment carries_id_def map_of_store_fragment split: sum.splits)

lemma parts_ingest_filter:
  "map_of (fragments s) rid = map_of (fragments s') rid \<Longrightarrow>
     map_of (fragments (ingest_all L ds s)) rid =
     map_of (fragments (ingest_all L (filter (carries_id L rid) ds) s')) rid"
proof (induction ds arbitrary: s s')
  case Nil
  then show ?case by (simp add: ingest_all_Nil)
next
  case (Cons d ds)
  show ?case
  proof (cases "carries_id L rid d")
    case True
    have "map_of (fragments (notif_handler L d s)) rid = map_of (fragments (notif_handler L d s')) rid"
      by (simp only: parts_after_handler Cons.prems)
    from Cons.IH [OF this] True show ?thesis by (simp add: ingest_all_Cons)
  next
    case False
    have "map_of (fragments (notif_handler L d s)) rid = map_of (fragments s') rid"
      using Cons.prems False by (simp add: parts_after_handler)
    from Cons.IH [OF this] False show ?thesis by (simp add: ingest_all_Cons)
  qed
qed

lemma assemble_cong:
  "map_of fr rid = map_of fr' rid \<Longrightarrow> assemble rid fr = assemble rid fr'"
  by (simp add: assemble_def)

text \<open>
  Claim C9. The buffer that a cycle assembles is built only from the fragments whose id
  equals the id of the submitted command: it is the buffer assembled from the accepted
  notifications that carry this id alone, so fragments stored under any other id, the
  \<^verbatim>\<open>None\<close> of a missing id included, contribute no bytes; and when no fragment carried the
  id, the buffer is empty.
\<close>

theorem response_from_matching_id_only:
  assumes "command_id L command_bytes = Inr rid"
  shows "assemble_response L command_bytes (fragments (ingest_all L ds new_cycle)) =
           assemble_response L command_bytes
             (fragments (ingest_all L (filter (carries_id L rid) ds) new_cycle))
       \<and> (filter (carries_id L rid) ds = [] \<longrightarrow>
            assemble_response L command_bytes (fragments (ingest_all L ds new_cycle)) = Inr [])"
proof -
  have eq: "map_of (fragments (ingest_all L ds new_cycle)) rid =
        map_of (fragments (ingest_all L (filter (carries_id L rid) ds) new_cycle)) rid"
    by (rule parts_ingest_filter) simp
  have first: "assemble_response L command_bytes (fragments (ingest_all L ds new_cycle)) =
           assemble_response L command_bytes
             (fragments (ingest_all L (filter (carries_id L rid) ds) new_cycle))"
    using assms assemble_cong [OF eq] by (simp add: assemble_response_def)
  have "assemble_response L command_bytes (fragments (ingest_all L [] new_cycle)) = Inr []"
    using assms by (simp add: assemble_response_def ingest_all_Nil new_cycle_def assemble_def)
  with first show ?thesis by auto
qed

theorem response_from_matching_id_only_witness:
  "command_id sample_lib command_X = Inr (KStr ''X'')
   \<and> filter (carries_id sample_lib (KStr ''X'')) [frag_other_id, frag_A, frag_empty_object, frag_C]
       = [frag_A, frag_C]
   \<and> assemble_response sample_lib command_X
        (fragments (ingest_all sample_lib [frag_other_id, frag_A, frag_empty_object, frag_C] new_cycle))
       = assemble_response sample_lib command_X
           (fragments (ingest_all sample_lib [frag_A, frag_C] new_cycle))
   \<and> filter (carries_id sample_lib (KStr ''X'')) [frag_other_id, frag_empty_object] = []
   \<and> assemble_response sample_lib command_X
        (fragments (ingest_all sample_lib [frag_other_id, frag_empty_object] new_cycle)) = Inr []"
proof -
  have c: "command_id sample_lib command_X = Inr (KStr ''X'')" by code_simp
  have f1: "filter (carries_id sample_lib (KStr ''X'')) [frag_other_id, frag_A, frag_empty_object, frag_C]
       = [frag_A, frag_C]" by code_simp
  have f2: "filter (carries_id sample_lib (KStr ''X'')) [frag_other_id, frag_empty_object] = []"
    by code_simp
  have r1: "assemble_response sample_lib command_X
        (fragments (ingest_all sample_lib [frag_other_id, frag_A, frag_empty_object, frag_C] new_cycle))
       = assemble_response sample_lib command_X
           (fragments (ingest_all sample_lib [frag_A, frag_C] new_cycle))"
    using response_from_matching_id_only
            [OF c, of "[frag_other_id, frag_A, frag_empty_object, frag_C]", unfolded f1]
    by (rule conjunct1)
  have r2: "assemble_response sample_lib command_X
        (fragments (ingest_all sample_lib [frag_other_id, frag_empty_object] new_cycle)) = Inr []"
    using response_from_matching_id_only [OF c, of "[frag_other_id, frag_empty_object]"] f2
    by blast
  show ?thesis by (intro conjI) (rule c f1 r1 f2 r2)+
qed

section \<open>Gaps and rejected notifications\<close>

text \<open>
  Claim C1, as stated, fails. The fragments with sequence numbers 0 and 2 arrive, the
  second with \<^verbatim>\<open>final\<close> set, and the one with sequence number 1 never does: the call
  returns the two payloads joined, \<^verbatim>\<open>"AC"\<close>, and raises nothing.
\<close>

theorem gap_is_not_detected:
  "fragment_of sample_lib frag_A = Inr (KStr ''X'', 0, [0x41], False)
   \<and> fragment_of sample_lib frag_C = Inr (KStr ''X'', 2, [0x43], True)
   \<and> send_command_and_get_response sample_lib MainEdition
         (quiet_link\<lparr>wait_events := [Notify frag_A, Notify frag_C]\<rparr>) command_X REQUEST_TIMEOUT []
       = (Some (Inr [0x41, 0x43]), [])"
  by code_simp

text \<open>
  Claim C1, amended. Assembling the response never fails on account of the sequence
  numbers: for the id of the command it returns the payloads stored under that id, one
  per sequence number present, joined in ascending order of sequence number, whether or
  not the numbers present run from 0 without a gap.
\<close>

theorem assembly_ignores_gaps:
  assumes "command_id L command_bytes = Inr rid"
  shows "\<exists>ks chunks. sorted ks \<and> distinct ks
           \<and> set ks = {i. slot (fragments (ingest_all L ds new_cycle)) rid i \<noteq> None}
           \<and> map (slot (fragments (ingest_all L ds new_cycle)) rid) ks = map Some chunks
           \<and> assemble_response L command_bytes (fragments (ingest_all L ds new_cycle))
               = Inr (concat chunks)"
proof -
  have ok: "table_ok (fragments (ingest_all L ds new_cycle))"
    by (rule table_ok_ingest_all) (simp add: new_cycle_def table_ok_empty)
  from assemble_present [OF ok, of rid] assms show ?thesis
    by (simp add: assemble_response_def)
qed

theorem assembly_ignores_gaps_witness:
  "command_id sample_lib command_X = Inr (KStr ''X'')
   \<and> (\<exists>ks chunks. sorted ks \<and> distinct ks
         \<and> set ks = {i. slot (fragments (ingest_all sample_lib [frag_A, frag_C] new_cycle)) (KStr ''X'') i \<noteq> None}
         \<and> map (slot (fragments (ingest_all sample_lib [frag_A, frag_C] new_cycle)) (KStr ''X'')) ks
             = map Some chunks
         \<and> assemble_response sample_lib command_X
              (fragments (ingest_all sample_lib [frag_A, frag_C] new_cycle)) = Inr (concat chunks))"
proof -
  have c: "command_id sample_lib command_X = Inr (KStr ''X'')" by code_simp
  from assembly_ignores_gaps [OF c, of "[frag_A, frag_C]"] c show ?thesis by blast
qed

lemma map_entry_id: "(\<And>v. f v = v) \<Longrightarrow> AList.map_entry k f al = al"
  by (induction al) auto

lemma deliver_dropped: "fragment_of L data = Inl e \<Longrightarrow> deliver L c data h = h"
  by (simp add: deliver_def map_entry_id notif_handler_drops)

lemma wait_for_finished:
  "frame_finished h c \<Longrightarrow> wait_for L c remaining evs h = (Completed, h)"
  by (cases evs) simp_all

lemma wait_for_expired:
  "\<not> frame_finished h c \<Longrightarrow> wait_for L c 0 evs h = (TimedOut, h)"
  by (cases evs) simp_all

lemma wait_for_dropped:
  assumes "fragment_of L data = Inl e"
  shows "wait_for L c remaining (Notify data # evs) h = wait_for L c remaining evs h"
proof (cases "frame_finished h c")
  case True
  then show ?thesis by (simp add: wait_for_finished del: wait_for.simps)
next
  case unfinished: False
  show ?thesis
  proof (cases "remaining = 0")
    case True
    with unfinished show ?thesis by (simp add: wait_for_expired del: wait_for.simps)
  next
    case False
    with unfinished assms show ?thesis by (simp add: deliver_dropped)
  qed
qed

text \<open>
  Claim C4, as stated, fails. A notification whose JSON object leaves out \<^verbatim>\<open>id\<close>,
  \<^verbatim>\<open>seq\<close> and \<^verbatim>\<open>payload_b64\<close> is not dropped: the handler reads the defaults of
  \<^verbatim>\<open>msg.get\<close>, stores an empty payload under the id \<^verbatim>\<open>None\<close> at sequence number 0 and,
  the flag being true, sets \<^verbatim>\<open>finished\<close>. The empty object is stored in the same way.
\<close>

theorem missing_fields_take_defaults:
  "fragment_of sample_lib frag_only_final = Inr (KNone, 0, [], True)
   \<and> notif_handler sample_lib frag_only_final new_cycle
       = \<lparr>fragments = [(KNone, [(0, [])])], finished = True\<rparr>
   \<and> notif_handler sample_lib frag_empty_object new_cycle
       = \<lparr>fragments = [(KNone, [(0, [])])], finished = False\<rparr>"
  by code_simp

text \<open>
  Claim C4, amended. When the handler's \<^verbatim>\<open>try\<close> body raises on a notification (the
  buffer is not UTF-8, the text is not JSON, the value is not an object, \<^verbatim>\<open>int\<close> refuses
  \<^verbatim>\<open>seq\<close>, \<^verbatim>\<open>payload_b64\<close> cannot be decoded, or the id cannot be a dictionary key), the
  handler of either edition returns with \<^verbatim>\<open>fragments\<close> and \<^verbatim>\<open>finished\<close> as they were, and
  the pending wait goes on as if the notification had not arrived.
\<close>

theorem undecodable_notification_dropped:
  assumes "fragment_of L data = Inl e"
  shows "notif_handler L data s = s
       \<and> notif_handler_mac L data s = s
       \<and> deliver L c data h = h
       \<and> wait_for L c remaining (Notify data # evs) h = wait_for L c remaining evs h"
  using notif_handler_drops [OF assms] deliver_dropped [OF assms] wait_for_dropped [OF assms]
  by (simp add: notif_handler_mac_eq del: wait_for.simps)

text \<open>The notifications on which the body raises.\<close>

lemma not_utf8_is_undecodable:
  "decode_utf8 L data = Inl e \<Longrightarrow> fragment_of L data = Inl e"
  by (simp add: fragment_of_def)

lemma not_json_is_undecodable:
  "decode_utf8 L data = Inr text \<Longrightarrow> json_loads L text = Inl e \<Longrightarrow> fragment_of L data = Inl e"
  by (simp add: fragment_of_def)

lemma not_an_object_is_undecodable:
  "decode_utf8 L data = Inr text \<Longrightarrow> json_loads L text = Inr msg \<Longrightarrow>
     (\<forall>kvs. msg \<noteq> JObj kvs) \<Longrightarrow> fragment_of L data = Inl AttributeError"
  by (cases msg) (simp_all add: fragment_of_def fragment_fields_def py_get_def)

lemma bad_seq_is_undecodable:
  "decode_utf8 L data = Inr text \<Longrightarrow> json_loads L text = Inr (JObj kvs) \<Longrightarrow>
     map_of kvs ''seq'' = Some v \<Longrightarrow> py_int L v = Inl e \<Longrightarrow> fragment_of L data = Inl e"
  by (simp add: fragment_of_def fragment_fields_def py_get_def)

theorem undecodable_notification_dropped_witness:
  "fragment_of sample_lib frag_not_utf8 = Inl UnicodeDecodeError
   \<and> fragment_of sample_lib frag_bad_seq = Inl ValueError
   \<and> notif_handler sample_lib frag_not_utf8 (notif_handler sample_lib frag_A new_cycle)
       = notif_handler sample_lib frag_A new_cycle
   \<and> notif_handler_mac sample_lib frag_bad_seq (notif_handler sample_lib frag_A new_cycle)
       = notif_handler sample_lib frag_A new_cycle
   \<and> wait_for sample_lib 1 REQUEST_TIMEOUT [Notify frag_not_utf8, Notify frag_C] [(1, new_cycle)]
       = wait_for sample_lib 1 REQUEST_TIMEOUT [Notify frag_C] [(1, new_cycle)]"
proof -
  have a: "fragment_of sample_lib frag_not_utf8 = Inl UnicodeDecodeError" by code_simp
  have b: "fragment_of sample_lib frag_bad_seq = Inl ValueError" by code_simp
  from undecodable_notification_dropped [OF a] undecodable_notification_dropped [OF b] a b
  show ?thesis by (simp del: wait_for.simps)
qed

lemma rejected_examples:
  "fragment_of sample_lib frag_truncated = Inl JSONDecodeError
   \<and> fragment_of sample_lib frag_not_utf8 = Inl UnicodeDecodeError
   \<and> fragment_of sample_lib frag_bad_seq = Inl ValueError"
  by code_simp

section \<open>Frames and the wait\<close>

lemma fold_max_bounds: "a \<le> fold max xs a \<and> (\<forall>x \<in> set xs. x \<le> fold max xs (a::nat))"
proof (induction xs arbitrary: a)
  case Nil
  then show ?case by simp
next
  case (Cons y ys)
  from Cons.IH [of "max y a"] show ?case by auto
qed

lemma fresh_frame_new: "fresh_frame h \<notin> fst ` set h"
proof
  assume "fresh_frame h \<in> fst ` set h"
  then have "fresh_frame h \<in> set (map fst h)" by simp
  with fold_max_bounds [of 0 "map fst h"] have "fresh_frame h \<le> fold max (map fst h) 0" by blast
  then show False by (simp add: fresh_frame_def)
qed

lemma map_entry_last:
  "c \<notin> fst ` set h \<Longrightarrow> AList.map_entry c f (h @ [(c, s)]) = h @ [(c, f s)]"
  by (induction h) auto

lemma delete_last: "c \<notin> fst ` set h \<Longrightarrow> AList.delete c (h @ [(c, s)]) = h"
  by (induction h) auto

lemma map_of_last: "c \<notin> fst ` set h \<Longrightarrow> map_of (h @ [(c, s)]) c = Some s"
  by (induction h) auto

lemma map_add_last: "c \<notin> fst ` set h \<Longrightarrow> ([c \<mapsto> s] ++ map_of h) c = Some s"
  using map_of_last [of c h s] by simp

lemma deliver_all_last:
  "c \<notin> fst ` set h \<Longrightarrow> deliver_all L c ds (h @ [(c, s)]) = h @ [(c, ingest_all L ds s)]"
proof (induction ds arbitrary: s)
  case Nil
  then show ?case by (simp add: deliver_all_def ingest_all_def)
next
  case (Cons d ds)
  have "deliver_all L c (d # ds) (h @ [(c, s)]) = deliver_all L c ds (deliver L c d (h @ [(c, s)]))"
    by (simp add: deliver_all_def)
  also have "\<dots> = deliver_all L c ds (h @ [(c, notif_handler L d s)])"
    using Cons.prems by (simp add: deliver_def map_entry_last)
  also have "\<dots> = h @ [(c, ingest_all L ds (notif_handler L d s))]"
    using Cons by simp
  finally show ?case by (simp add: ingest_all_Cons)
qed

lemma wait_for_last:
  "c \<notin> fst ` set h \<Longrightarrow>
     wait_for L c remaining evs (h @ [(c, s)]) =
       (fst (wait_local L remaining evs s), h @ [(c, snd (wait_local L remaining evs s))])"
proof (induction evs arbitrary: s remaining)
  case Nil
  then show ?case by (simp add: frame_finished_def map_add_last)
next
  case (Cons ev evs)
  show ?case
  proof (cases ev)
    case (Notify d)
    with Cons show ?thesis
      by (simp add: frame_finished_def map_add_last deliver_def map_entry_last)
  next
    case Tick
    with Cons show ?thesis
      by (simp add: frame_finished_def map_add_last)
  qed
qed

lemma finished_after_handler:
  "finished (notif_handler L d s) = (is_final L d \<or> finished s)"
  by (auto simp: notif_handler_fragment is_final_def split: sum.splits)

lemma finished_after_ingest_all:
  "finished (ingest_all L ds s) = ((\<exists>d \<in> set ds. is_final L d) \<or> finished s)"
  by (induction ds arbitrary: s) (auto simp: ingest_all_Nil ingest_all_Cons finished_after_handler)


lemma wait_local_keeps_waiting:
  "\<not> finished s \<Longrightarrow> \<forall>d \<in> set (notifications evs). \<not> is_final L d \<Longrightarrow>
     ticks evs < timeout \<Longrightarrow> fst (wait_local L timeout evs s) = Waiting"
proof (induction evs arbitrary: s timeout)
  case Nil
  then show ?case by simp
next
  case (Cons ev evs)
  show ?case
  proof (cases ev)
    case (Notify d)
    with Cons.prems have nf: "\<not> finished (notif_handler L d s)"
      by (simp add: finished_after_handler)
    from Cons.prems Notify have "\<forall>d \<in> set (notifications evs). \<not> is_final L d" "ticks evs < timeout"
      by simp_all
    from Cons.IH [OF nf this] Cons.prems Notify show ?thesis by simp
  next
    case Tick
    from Cons.prems Tick have "\<forall>d \<in> set (notifications evs). \<not> is_final L d" "ticks evs < timeout - 1"
      by auto
    from Cons.IH [OF Cons.prems(1) this] Cons.prems Tick show ?thesis by simp
  qed
qed

lemma write_chunks_all_ok: "(\<And>k chunk. w k chunk = None) \<Longrightarrow> write_chunks w k chunks = None"
  by (induction chunks arbitrary: k) simp_all

text \<open>
  The call in terms of its own frame: whatever frames are live when it starts, it works
  on a new frame that starts as \<open>new_cycle\<close>, and it leaves the others as they are.
\<close>

lemma send_command_unfold:
  "send_command_and_get_response L ed env command_bytes timeout h =
     (case connect_result env of
        Some e \<Rightarrow> (Some (Inl e), h)
      | None \<Rightarrow>
     (case start_notify_result env of
        Some e \<Rightarrow> (Some (leave_session ed env (Inl e)), h)
      | None \<Rightarrow>
     (case chunk_bytes command_bytes BLE_CHUNK_SIZE of
        Inl e \<Rightarrow> (Some (leave_session ed env (Inl e)), h)
      | Inr chunks \<Rightarrow>
     (case write_chunks (write_result env) 0 chunks of
        Some e \<Rightarrow> (Some (leave_session ed env (Inl e)), h)
      | None \<Rightarrow>
     (case wait_local L timeout (wait_events env)
             (ingest_all L (early_notifications env) new_cycle) of
        (Waiting, s) \<Rightarrow> (None, h @ [(fresh_frame h, s)])
      | (TimedOut, s) \<Rightarrow> (Some (leave_session ed env (Inl TimeoutError)), h)
      | (Completed, s) \<Rightarrow>
          (Some (leave_session ed env (assemble_response L command_bytes (fragments s))), h))))))"
  using fresh_frame_new [of h]
  by (simp add: send_command_and_get_response_def Let_def delete_last deliver_all_last
        wait_for_last frame_fragments_def map_add_last
      split: option.splits sum.splits wait_result.splits prod.splits)

section \<open>Timeout and isolation of a cycle\<close>


lemma chunk_bytes_default: "chunk_bytes b BLE_CHUNK_SIZE = Inr (chunks_from 0 b 120)"
  by (simp add: chunk_bytes_def BLE_CHUNK_SIZE_def)





text \<open>Before the deadline such a call has not returned.\<close>

lemma still_waiting_before_deadline:
  assumes "connect_result env = None" "start_notify_result env = None"
      and "\<forall>k chunk. write_result env k chunk = None"
      and nofinal: "\<forall>d \<in> set (early_notifications env @ notifications (wait_events env)).
                      \<not> is_final L d"
      and early: "ticks (wait_events env) < timeout"
  shows "fst (send_command_and_get_response L ed env command_bytes timeout h) = None"
proof -
  let ?s1 = "ingest_all L (early_notifications env) new_cycle"
  have w: "write_chunks (write_result env) 0 (chunks_from 0 command_bytes 120) = None"
    using assms(3) by (simp add: write_chunks_all_ok)
  have nf: "\<not> finished ?s1"
    using nofinal by (simp add: finished_after_ingest_all new_cycle_def)
  have "\<forall>d \<in> set (notifications (wait_events env)). \<not> is_final L d"
    using nofinal by simp
  from wait_local_keeps_waiting [OF nf this early]
  obtain s2 where "wait_local L timeout (wait_events env) ?s1 = (Waiting, s2)"
    by (cases "wait_local L timeout (wait_events env) ?s1") simp
  then show ?thesis
    using assms(1,2) w by (simp add: send_command_unfold chunk_bytes_default)
qed

text \<open>
  Claim C10. Every cycle starts from an empty fragment table of its own: the frame it
  allocates is new, whatever frames earlier or concurrent calls have left, so its table
  is empty at the start; the outcome of the call is the one it has when no other frame
  exists; and the call leaves every other frame as it found it, adding its own frame
  only for as long as it is still waiting.
\<close>

theorem cycle_is_isolated:
  "frame_fragments (h @ [(fresh_frame h, new_cycle)]) (fresh_frame h) = []
   \<and> fst (send_command_and_get_response L ed env command_bytes timeout h)
       = fst (send_command_and_get_response L ed env command_bytes timeout [])
   \<and> (fst (send_command_and_get_response L ed env command_bytes timeout h) \<noteq> None \<longrightarrow>
        snd (send_command_and_get_response L ed env command_bytes timeout h) = h)
   \<and> (fst (send_command_and_get_response L ed env command_bytes timeout h) = None \<longrightarrow>
        (\<exists>s. snd (send_command_and_get_response L ed env command_bytes timeout h)
               = h @ [(fresh_frame h, s)]))"
proof -
  have "frame_fragments (h @ [(fresh_frame h, new_cycle)]) (fresh_frame h) = []"
    using fresh_frame_new [of h] by (simp add: frame_fragments_def map_add_last new_cycle_def)
  then show ?thesis
    by (simp add: send_command_unfold
          split: option.splits sum.splits wait_result.splits prod.splits)
qed

theorem cycle_is_isolated_witness:
  "snd (send_command_and_get_response sample_lib MainEdition
          (quiet_link\<lparr>wait_events := [Notify frag_B]\<rparr>) command_X REQUEST_TIMEOUT [])
     = busy_frames
   \<and> frame_fragments (busy_frames @ [(fresh_frame busy_frames, new_cycle)]) (fresh_frame busy_frames)
       = []
   \<and> fst (send_command_and_get_response sample_lib MainEdition
            (quiet_link\<lparr>wait_events := [Notify frag_A, Notify frag_C]\<rparr>) command_X
            REQUEST_TIMEOUT busy_frames)
       = Some (Inr [0x41, 0x43])
   \<and> snd (send_command_and_get_response sample_lib MainEdition
            (quiet_link\<lparr>wait_events := [Notify frag_A, Notify frag_C]\<rparr>) command_X
            REQUEST_TIMEOUT busy_frames)
       = busy_frames"
proof -
  let ?env = "quiet_link\<lparr>wait_events := [Notify frag_A, Notify frag_C]\<rparr>"
  have first: "snd (send_command_and_get_response sample_lib MainEdition
          (quiet_link\<lparr>wait_events := [Notify frag_B]\<rparr>) command_X REQUEST_TIMEOUT [])
     = busy_frames" by code_simp
  have alone: "fst (send_command_and_get_response sample_lib MainEdition ?env command_X
                  REQUEST_TIMEOUT []) = Some (Inr [0x41, 0x43])" by code_simp
  from cycle_is_isolated [of busy_frames sample_lib MainEdition ?env command_X REQUEST_TIMEOUT]
       first alone
  show ?thesis by simp
qed

section \<open>The HTTP adapter\<close>




text \<open>
  Device selection runs outside both \<^verbatim>\<open>try\<close> blocks: an exception there leaves
  \<^verbatim>\<open>handle_request\<close> and is answered, if at all, by the web framework.
\<close>

lemma device_failure_leaves_handler:
  "ensure_device denv st = (Some e, st1) \<Longrightarrow>
     fst (handle_request L ed denv env now_ms request st) = Some (Inl e)"
  by (simp add: handle_request_def)

lemma no_device_selected_example:
  "fst (handle_request sample_lib MainEdition no_devices quiet_link 1700000000000 sample_request
          (connected_proxy\<lparr>connected_address := None\<rparr>)) = Some (Inl BleakError)"
  by code_simp

end
